theory Spec2Isabelle
  imports Main "HOL-Library.Word" "HOL-Library.Log_Nat"
begin

unbundle bit_operations_syntax

section \<open>Wishbone bus ports\<close>

text \<open>
  \<^verbatim>\<open>migen/bus/wishbone.py\<close> describes a Wishbone port by the table \<^verbatim>\<open>_desc\<close>:
  eight signals driven by the master (\<^verbatim>\<open>adr dat sel cyc stb we cti bte\<close>, flag
  \<^verbatim>\<open>True\<close>) and three driven by the slave (\<^verbatim>\<open>dat ack err\<close>, flag \<^verbatim>\<open>False\<close>).
  On a \<^verbatim>\<open>Master\<close> port the first group carries the suffix \<^verbatim>\<open>_o\<close> and the second
  \<^verbatim>\<open>_i\<close>; on a \<^verbatim>\<open>Slave\<close> port it is the other way round.

  One clock cycle of the generated logic is modelled as a function from the values of
  the signals the fabric reads to the values of the signals it drives. A port is
  therefore split into the record of what it drives and the record of what it
  receives. Signals of width 1 are \<^typ>\<open>bool\<close>, wider ones are words of the width
  given in \<^verbatim>\<open>_desc\<close>. The two \<^verbatim>\<open>dat\<close> signals of a slave port are called
  \<open>sl_dat_i\<close> and \<open>sl_dat_o\<close>, since a record field name is global.
\<close>

record Master_out =
  adr_o :: "32 word"
  dat_o :: "32 word"
  sel_o :: "4 word"
  cyc_o :: bool
  stb_o :: bool
  we_o :: bool
  cti_o :: "3 word"
  bte_o :: "2 word"

record Master_in =
  dat_i :: "32 word"
  ack_i :: bool
  err_i :: bool

record Slave_in =
  adr_i :: "32 word"
  sl_dat_i :: "32 word"
  sel_i :: "4 word"
  cyc_i :: bool
  stb_i :: bool
  we_i :: bool
  cti_i :: "3 word"
  bte_i :: "2 word"

record Slave_out =
  sl_dat_o :: "32 word"
  ack_o :: bool
  err_o :: bool

section \<open>Decoder\<close>

subsection \<open>Construction\<close>

text \<open>
  An entry of the address table is \<^verbatim>\<open>slave[0]\<close>: a Python \<^verbatim>\<open>int\<close> or a
  \<^verbatim>\<open>structure.Constant\<close>, which has a value and a bit vector width
  (\<^verbatim>\<open>addr.bv.width\<close>).
\<close>

record Constant =
  c_n :: int
  bv_width :: nat

datatype address = AInt int | AConst Constant

datatype error = ValueError

text \<open>
  \<^verbatim>\<open>mkconst\<close>, the local function of \<^verbatim>\<open>Decoder.__init__\<close>: an \<^verbatim>\<open>int\<close> becomes
  \<^verbatim>\<open>Constant(x, BV(maxbits))\<close>, anything else is kept.
\<close>

definition mkconst :: "nat \<Rightarrow> address \<Rightarrow> Constant" where
  "mkconst maxbits x = (case x of AInt v \<Rightarrow> \<lparr>c_n = v, bv_width = maxbits\<rparr> | AConst c \<Rightarrow> c)"

record Decoder =
  addresses :: "Constant list"
  offset :: nat
  register :: bool

text \<open>
  \<^verbatim>\<open>Decoder.__init__(self, master, slaves, offset=0, register=False)\<close>. The ports
  themselves are signal names; what remains of \<^verbatim>\<open>slaves\<close> is the list of its first
  components. \<^verbatim>\<open>bits_for\<close> comes from \<^verbatim>\<open>migen.fhdl.structure\<close>, which is not part
  of the sources at hand, so it is a parameter. Python's \<^verbatim>\<open>max\<close> of an empty list
  raises \<^verbatim>\<open>ValueError\<close>; nothing else in the constructor can fail. The number of
  slaves \<^verbatim>\<open>ns\<close> is the length of the table.
\<close>

definition Decoder_init ::
  "(address \<Rightarrow> nat) \<Rightarrow> address list \<Rightarrow> nat \<Rightarrow> bool \<Rightarrow> error + Decoder" where
  "Decoder_init bits_for slaves off reg =
     (if slaves = [] then Inl ValueError
      else let maxbits = Max (set (map bits_for slaves))
           in Inr \<lparr>addresses = map (mkconst maxbits) slaves, offset = off, register = reg\<rparr>)"

definition ns :: "Decoder \<Rightarrow> nat" where
  "ns d = length (addresses d)"

subsection \<open>One cycle of the decoder\<close>

text \<open>
  \<^verbatim>\<open>self.master.adr_o[lo:hi]\<close>: the bits \<open>lo\<close>, \<dots>, \<open>hi - 1\<close> of the address, read
  as an unsigned number. The decoder calls it with \<open>lo = hi - addr.bv.width\<close>; the
  difference is a natural number here, so the definition describes the generated
  logic only when the pattern is no wider than the \<open>hi\<close> bits above the offset
  (\<open>window_ok\<close> below).
\<close>

definition adr_slice :: "32 word \<Rightarrow> nat \<Rightarrow> nat \<Rightarrow> nat" where
  "adr_slice a lo hi = take_bit (hi - lo) (drop_bit lo (unat a))"

definition hi :: "Decoder \<Rightarrow> nat" where
  "hi d = 32 - offset d"

text \<open>
  The comparator of one entry,
  \<^verbatim>\<open>self.master.adr_o[hi-addr.bv.width:hi] == addr\<close>: the value of the slice equals
  the value of the constant. Both sides have the width of the constant; a constant
  whose value does not fit its width is equal to no slice.
\<close>

definition matches :: "Decoder \<Rightarrow> 32 word \<Rightarrow> Constant \<Rightarrow> bool" where
  "matches d a addr = (int (adr_slice a (hi d - bv_width addr) (hi d)) = c_n addr)"

text \<open>The combinational signal \<^verbatim>\<open>_slave_sel\<close>, one bit per table entry.\<close>

definition slave_sel :: "Decoder \<Rightarrow> Master_out \<Rightarrow> bool list" where
  "slave_sel d m = map (matches d (adr_o m)) (addresses d)"

text \<open>
  \<^verbatim>\<open>_slave_sel_r\<close>: with \<^verbatim>\<open>register\<close> it is a flip-flop, whose content \<open>r\<close> is the
  state of the decoder; without it is driven combinationally by \<^verbatim>\<open>_slave_sel\<close>.
\<close>

definition slave_sel_r :: "Decoder \<Rightarrow> bool list \<Rightarrow> Master_out \<Rightarrow> bool list" where
  "slave_sel_r d r m = (if register d then r else slave_sel d m)"

text \<open>The synchronous statement: the next content of the flip-flop.\<close>

definition Decoder_sync :: "Decoder \<Rightarrow> bool list \<Rightarrow> Master_out \<Rightarrow> bool list" where
  "Decoder_sync d r m = (if register d then slave_sel d m else r)"

text \<open>\<^verbatim>\<open>Replicate(b, 32)\<close>: a word all of whose bits are \<open>b\<close>.\<close>

definition Replicate :: "bool \<Rightarrow> 32 word" where
  "Replicate b = (if b then - 1 else 0)"

text \<open>
  The signals driven towards slave \<open>i\<close>: every master signal but \<^verbatim>\<open>cyc\<close> is
  copied, \<^verbatim>\<open>cyc_i\<close> is \<^verbatim>\<open>self.master.cyc_o & self._slave_sel[i]\<close>.
\<close>

definition slave_i :: "Decoder \<Rightarrow> Master_out \<Rightarrow> nat \<Rightarrow> Slave_in" where
  "slave_i d m i =
     \<lparr>adr_i = adr_o m, sl_dat_i = dat_o m, sel_i = sel_o m,
      cyc_i = (cyc_o m \<and> slave_sel d m ! i),
      stb_i = stb_o m, we_i = we_o m, cti_i = cti_o m, bte_i = bte_o m\<rparr>"

text \<open>
  The three loops over the slaves that build \<^verbatim>\<open>ackv\<close>, \<^verbatim>\<open>errv\<close> and \<^verbatim>\<open>datav\<close>,
  each starting from the constant 0. The slaves' outputs of the cycle are given by
  their position in the table.
\<close>

definition ackv :: "Decoder \<Rightarrow> (nat \<Rightarrow> Slave_out) \<Rightarrow> bool" where
  "ackv d s = foldl (\<lambda>v i. v \<or> ack_o (s i)) False [0..<ns d]"

definition errv :: "Decoder \<Rightarrow> (nat \<Rightarrow> Slave_out) \<Rightarrow> bool" where
  "errv d s = foldl (\<lambda>v i. v \<or> err_o (s i)) False [0..<ns d]"

definition datav :: "Decoder \<Rightarrow> bool list \<Rightarrow> Master_out \<Rightarrow> (nat \<Rightarrow> Slave_out) \<Rightarrow> 32 word" where
  "datav d r m s =
     foldl (\<lambda>v i. v OR (Replicate (slave_sel_r d r m ! i) AND sl_dat_o (s i))) 0 [0..<ns d]"

text \<open>
  All combinational outputs of \<^verbatim>\<open>Decoder.get_fragment\<close> in one cycle, from the
  content \<open>r\<close> of the flip-flops, the signals \<open>m\<close> of the master port and the
  signals \<open>s\<close> of the slaves.
\<close>

record Decoder_comb =
  slaves_i :: "Slave_in list"
  master_i :: Master_in

definition Decoder_get_fragment ::
  "Decoder \<Rightarrow> bool list \<Rightarrow> Master_out \<Rightarrow> (nat \<Rightarrow> Slave_out) \<Rightarrow> Decoder_comb" where
  "Decoder_get_fragment d r m s =
     \<lparr>slaves_i = map (slave_i d m) [0..<ns d],
      master_i = \<lparr>dat_i = datav d r m s, ack_i = ackv d s, err_i = errv d s\<rparr>\<rparr>"

text \<open>
  The content of the flip-flops at the start of cycle \<open>t\<close>, for the stream \<open>ms\<close> of
  the master's signals. A signal is reset to 0.
\<close>

fun Decoder_reg :: "Decoder \<Rightarrow> (nat \<Rightarrow> Master_out) \<Rightarrow> nat \<Rightarrow> bool list" where
  "Decoder_reg d ms 0 = replicate (ns d) False"
| "Decoder_reg d ms (Suc t) = Decoder_sync d (Decoder_reg d ms t) (ms t)"

subsection \<open>The configuration invariant\<close>

text \<open>
  ``Addresses must not conflict'': two patterns conflict when they agree on the bits
  both of them decode, the topmost \<open>min\<close> of their widths.
\<close>

definition conflict :: "Constant \<Rightarrow> Constant \<Rightarrow> bool" where
  "conflict a b =
     (let w = min (bv_width a) (bv_width b)
      in c_n a div 2 ^ (bv_width a - w) = c_n b div 2 ^ (bv_width b - w))"

fun no_conflicts :: "Constant list \<Rightarrow> bool" where
  "no_conflicts [] = True"
| "no_conflicts (a # as) = (list_all (\<lambda>b. \<not> conflict a b) as \<and> no_conflicts as)"

text \<open>Every pattern fits into the bits above the offset.\<close>

definition window_ok :: "Decoder \<Rightarrow> bool" where
  "window_ok d = list_all (\<lambda>a. bv_width a \<le> hi d) (addresses d)"

text \<open>The number of bits set in a select vector.\<close>

definition bits_set :: "bool list \<Rightarrow> nat" where
  "bits_set v = length (filter id v)"


section \<open>Arbiter\<close>

text \<open>
  Modelled from the spec: \<^verbatim>\<open>multimux.multimux(sel, inputs, output)\<close> is defined in
  \<^verbatim>\<open>migen.corelogic.multimux\<close>, which is not among the sources. The specification
  gives its effect as ``the shared trunk's field = initiator_ports[grant].field'',
  for each signal of the group alike, so the model selects the whole group of the
  input with index \<open>sel\<close>. The specification says nothing about a \<open>sel\<close> that is not
  the index of an input: the result is \<open>None\<close> then.
\<close>

definition multimux :: "nat \<Rightarrow> 'a list \<Rightarrow> 'a option" where
  "multimux sel inputs = (if sel < length inputs then Some (inputs ! sel) else None)"

text \<open>
  The slave-to-master signals of master \<open>i\<close>: \<^verbatim>\<open>ack_i\<close> and \<^verbatim>\<open>err_i\<close> are
  \<^verbatim>\<open>source & (self.rr.grant == Constant(i, self.rr.grant.bv))\<close>, the third signal,
  \<^verbatim>\<open>dat_i\<close>, is the source itself. \<open>g\<close> is the value of \<^verbatim>\<open>self.rr.grant\<close> in the
  cycle and \<open>tgt\<close> what the target port receives.
\<close>

definition Arbiter_master_i :: "nat \<Rightarrow> Master_in \<Rightarrow> nat \<Rightarrow> Master_in" where
  "Arbiter_master_i g tgt i =
     \<lparr>dat_i = dat_i tgt, ack_i = (ack_i tgt \<and> g = i), err_i = (err_i tgt \<and> g = i)\<rparr>"

text \<open>
  \<^verbatim>\<open>self.rr.request.eq(Cat(*reqs))\<close> with \<^verbatim>\<open>reqs = [m.cyc_o for m in self.masters]\<close>:
  bit \<open>i\<close> of the request vector is \<^verbatim>\<open>cyc_o\<close> of master \<open>i\<close>.
\<close>

definition Arbiter_request :: "nat \<Rightarrow> (nat \<Rightarrow> Master_out) \<Rightarrow> bool list" where
  "Arbiter_request n mo = map (\<lambda>i. cyc_o (mo i)) [0..<n]"

text \<open>
  The combinational statements of \<^verbatim>\<open>Arbiter.get_fragment\<close> for \<open>n\<close> masters with
  signals \<open>mo\<close>: the master-to-slave group of the target port, the slave-to-master
  group of every master, and the request vector of the round-robin selector.
\<close>

record Arbiter_comb =
  target_o :: "Master_out option"
  masters_i :: "Master_in list"
  request :: "bool list"

definition Arbiter_get_fragment ::
  "nat \<Rightarrow> nat \<Rightarrow> (nat \<Rightarrow> Master_out) \<Rightarrow> Master_in \<Rightarrow> Arbiter_comb" where
  "Arbiter_get_fragment n g mo tgt =
     \<lparr>target_o = multimux g (map mo [0..<n]),
      masters_i = map (Arbiter_master_i g tgt) [0..<n],
      request = Arbiter_request n mo\<rparr>"

subsection \<open>Round-robin selector\<close>

text \<open>
  Modelled from the spec: \<^verbatim>\<open>roundrobin.Inst\<close> is defined in
  \<^verbatim>\<open>migen.corelogic.roundrobin\<close>, which is not among the sources. The specification
  (section 4.1): ``starting immediately after previous_grant (wrapping), scan the N
  request bits in rotating order; the first set bit found becomes the new grant. If
  no bits are set, grant is "none" and previous_grant is unchanged for the next
  evaluation''. \<open>rr_order\<close> is the order of the scan, \<open>rr_evaluate\<close> the grant of a
  cycle and \<open>rr_pointer\<close> the rotation pointer after it.
\<close>

definition rr_order :: "nat \<Rightarrow> nat \<Rightarrow> nat list" where
  "rr_order n prev = map (\<lambda>k. (prev + k) mod n) [1..<n + 1]"

definition rr_evaluate :: "bool list \<Rightarrow> nat \<Rightarrow> nat option" where
  "rr_evaluate req prev = find (\<lambda>t. req ! t) (rr_order (length req) prev)"

definition rr_pointer :: "bool list \<Rightarrow> nat \<Rightarrow> nat" where
  "rr_pointer req prev = (case rr_evaluate req prev of None \<Rightarrow> prev | Some g \<Rightarrow> g)"

text \<open>
  Modelled from the spec: the pointer before cycle \<open>t\<close> and the grant of cycle \<open>t\<close>,
  for the stream \<open>reqs\<close> of request vectors, from the pointer \<open>p0\<close> at the start.
\<close>

fun rr_prev :: "(nat \<Rightarrow> bool list) \<Rightarrow> nat \<Rightarrow> nat \<Rightarrow> nat" where
  "rr_prev reqs p0 0 = p0"
| "rr_prev reqs p0 (Suc t) = rr_pointer (reqs t) (rr_prev reqs p0 t)"

definition rr_grant :: "(nat \<Rightarrow> bool list) \<Rightarrow> nat \<Rightarrow> nat \<Rightarrow> nat option" where
  "rr_grant reqs p0 t = rr_evaluate (reqs t) (rr_prev reqs p0 t)"

section \<open>Concrete configurations\<close>

text \<open>
  Modelled from the spec: \<^verbatim>\<open>bits_for\<close> is defined in \<^verbatim>\<open>migen.fhdl.structure\<close>, which
  is not among the sources, and the specification only names it (``the maximum
  bits_for width''). The constructor above takes it as a parameter; the instance
  here, the number of binary digits of a non-negative \<^verbatim>\<open>int\<close> (one digit for 0)
  and the width of a \<^verbatim>\<open>Constant\<close>, serves the concrete examples.
\<close>

definition bits_for :: "address \<Rightarrow> nat" where
  "bits_for x = (case x of AInt v \<Rightarrow> max 1 (nat (bitlen v)) | AConst c \<Rightarrow> bv_width c)"

text \<open>
  The table of the specification's scenario: target A decodes the address bit 31
  as 0, target B as 1, with offset 0.
\<close>

definition demo_decoder :: "bool \<Rightarrow> Decoder" where
  "demo_decoder reg =
     \<lparr>addresses = [\<lparr>c_n = 0, bv_width = 1\<rparr>, \<lparr>c_n = 1, bv_width = 1\<rparr>],
      offset = 0, register = reg\<rparr>"

text \<open>A master that reads from address \<open>a\<close>.\<close>

definition demo_master :: "32 word \<Rightarrow> Master_out" where
  "demo_master a =
     \<lparr>adr_o = a, dat_o = 0, sel_o = 15, cyc_o = True, stb_o = True, we_o = False,
      cti_o = 0, bte_o = 0\<rparr>"

text \<open>A slave that drives the read data \<open>x\<close> and neither acknowledge nor error.\<close>

definition demo_slave :: "32 word \<Rightarrow> Slave_out" where
  "demo_slave x = \<lparr>sl_dat_o = x, ack_o = False, err_o = False\<rparr>"

text \<open>
  A stream of master signals that addresses target B in cycle 0 and target A from
  then on, and one that addresses target A throughout.
\<close>

definition demo_stream :: "nat \<Rightarrow> Master_out" where
  "demo_stream t = demo_master (if t = 0 then 0x80000000 else 0x10)"

definition steady_stream :: "nat \<Rightarrow> Master_out" where
  "steady_stream t = demo_master 0x10"

text \<open>Slaves that all drive the read data 5 in cycle 0 and 7 afterwards.\<close>

definition changing_slaves :: "nat \<Rightarrow> nat \<Rightarrow> Slave_out" where
  "changing_slaves t i = demo_slave (if t = 0 then 5 else 7)"


text \<open>What a target port receives when the trunk carries data, acknowledge and error.\<close>

definition demo_target :: Master_in where
  "demo_target = \<lparr>dat_i = 5, ack_i = True, err_i = True\<rparr>"

text \<open>
  Three masters, all requesting; master 2 addresses target B, the others target A.
  \<open>steady_masters\<close> is the stream in which they hold these signals in every cycle.
\<close>

definition demo_masters :: "nat \<Rightarrow> Master_out" where
  "demo_masters i = demo_master (if i = 2 then 0x80000000 else 0x10)"

definition steady_masters :: "nat \<Rightarrow> nat \<Rightarrow> Master_out" where
  "steady_masters t i = demo_masters i"

text \<open>Slaves of which the first acknowledges with the read data 5 and the others are silent.\<close>

definition acking_slaves :: "nat \<Rightarrow> Slave_out" where
  "acking_slaves i = (if i = 0 then \<lparr>sl_dat_o = 5, ack_o = True, err_o = False\<rparr> else demo_slave 0)"

text \<open>
  Address tables as \<^verbatim>\<open>Decoder.__init__\<close> receives them: one with the same pattern
  twice, one with an \<^verbatim>\<open>int\<close> beside a \<^verbatim>\<open>Constant\<close> of three bits, and a further
  entry of four bits.
\<close>

definition overlap_table :: "address list" where
  "overlap_table = [AInt 0, AInt 0]"



section \<open>Address decoding\<close>

text \<open>A wider slice of the address, shifted right, is the narrower slice with the same top.\<close>

lemma adr_slice_div:
  assumes "lo1 \<le> lo2" "lo2 \<le> h"
  shows "adr_slice a lo1 h div 2 ^ (lo2 - lo1) = adr_slice a lo2 h"
proof -
  have "adr_slice a lo1 h div 2 ^ (lo2 - lo1)
          = drop_bit (lo2 - lo1) (take_bit (h - lo1) (drop_bit lo1 (unat a)))"
    by (simp add: adr_slice_def drop_bit_eq_div)
  also have "\<dots> = take_bit (h - lo1 - (lo2 - lo1)) (drop_bit (lo2 - lo1) (drop_bit lo1 (unat a)))"
    by (simp add: drop_bit_take_bit)
  also have "\<dots> = adr_slice a lo2 h"
    using assms by (simp add: adr_slice_def add.commute)
  finally show ?thesis .
qed

lemma matches_top:
  assumes "w \<le> bv_width x" "bv_width x \<le> hi d" "matches d a x"
  shows "c_n x div 2 ^ (bv_width x - w) = int (adr_slice a (hi d - w) (hi d))"
proof -
  have e: "bv_width x - w = (hi d - w) - (hi d - bv_width x)"
    using assms(1,2) by simp
  have "adr_slice a (hi d - bv_width x) (hi d) div 2 ^ ((hi d - w) - (hi d - bv_width x))
          = adr_slice a (hi d - w) (hi d)"
    using assms(1) by (intro adr_slice_div) simp_all
  then have "adr_slice a (hi d - bv_width x) (hi d) div 2 ^ (bv_width x - w)
          = adr_slice a (hi d - w) (hi d)"
    by (simp only: e)
  moreover have "c_n x = int (adr_slice a (hi d - bv_width x) (hi d))"
    using assms(3) by (simp add: matches_def)
  moreover have "int (adr_slice a (hi d - bv_width x) (hi d) div 2 ^ (bv_width x - w))
      = int (adr_slice a (hi d - bv_width x) (hi d)) div 2 ^ (bv_width x - w)"
    by (simp add: zdiv_int)
  ultimately show ?thesis by simp
qed

text \<open>Two patterns that match the same address conflict.\<close>

lemma matches_conflict:
  assumes "bv_width x \<le> hi d" "bv_width y \<le> hi d" "matches d a x" "matches d a y"
  shows "conflict x y"
proof -
  define w where "w = min (bv_width x) (bv_width y)"
  have "c_n x div 2 ^ (bv_width x - w) = int (adr_slice a (hi d - w) (hi d))"
    using assms(1,3) by (intro matches_top) (simp_all add: w_def)
  moreover have "c_n y div 2 ^ (bv_width y - w) = int (adr_slice a (hi d - w) (hi d))"
    using assms(2,4) by (intro matches_top) (simp_all add: w_def)
  ultimately show ?thesis by (simp add: conflict_def Let_def w_def)
qed

lemma bits_set_matches:
  assumes "no_conflicts xs" "list_all (\<lambda>x. bv_width x \<le> hi d) xs"
  shows "bits_set (map (matches d a) xs) \<le> 1"
  using assms
proof (induction xs)
  case Nil
  then show ?case by (simp add: bits_set_def)
next
  case (Cons x xs)
  show ?case
  proof (cases "matches d a x")
    case True
    have "\<not> matches d a y" if "y \<in> set xs" for y
    proof
      assume "matches d a y"
      with True Cons.prems that have "conflict x y"
        by (auto intro: matches_conflict simp: list_all_iff)
      with Cons.prems(1) that show False by (simp add: list_all_iff)
    qed
    then have "filter id (map (matches d a) xs) = []"
      by (auto simp: filter_empty_conv)
    with True show ?thesis by (simp add: bits_set_def)
  next
    case False
    with Cons show ?thesis by (simp add: bits_set_def)
  qed
qed

lemma bits_set_slave_sel:
  "window_ok d \<Longrightarrow> no_conflicts (addresses d) \<Longrightarrow> bits_set (slave_sel d m) \<le> 1"
  using bits_set_matches [of "addresses d" d "adr_o m"]
  by (simp add: slave_sel_def window_ok_def)

lemma bits_set_replicate_False: "bits_set (replicate k False) = 0"
  by (simp add: bits_set_def)

lemma bits_set_Decoder_reg:
  "window_ok d \<Longrightarrow> no_conflicts (addresses d) \<Longrightarrow> bits_set (Decoder_reg d ms t) \<le> 1"
proof (induction t)
  case 0
  then show ?case by (simp add: bits_set_replicate_False)
next
  case (Suc t)
  then show ?case
    using bits_set_slave_sel [of d "ms t"] by (simp add: Decoder_sync_def)
qed

text \<open>The demonstration table and the select vectors of two addresses.\<close>

lemma adr_slice_demo:
  "adr_slice (0x10 :: 32 word) 31 32 = 0" "adr_slice (0x80000000 :: 32 word) 31 32 = 1"
  by (simp_all add: adr_slice_def drop_bit_eq_div take_bit_eq_mod)

lemma demo_window_ok: "window_ok (demo_decoder reg)"
  by (simp add: window_ok_def demo_decoder_def hi_def)

lemma demo_no_conflicts: "no_conflicts (addresses (demo_decoder reg))"
  by (simp add: demo_decoder_def conflict_def)

lemma demo_slave_sel_A: "slave_sel (demo_decoder reg) (demo_master 0x10) = [True, False]"
  by (simp add: slave_sel_def demo_decoder_def demo_master_def matches_def hi_def adr_slice_demo)

lemma demo_slave_sel_B: "slave_sel (demo_decoder reg) (demo_master 0x80000000) = [False, True]"
  by (simp add: slave_sel_def demo_decoder_def demo_master_def matches_def hi_def adr_slice_demo)

text \<open>
  Claim C1. When the patterns of the table do not conflict pairwise (and each fits
  into the decoded bits), then in every cycle \<open>t\<close> of every run at most one bit of
  \<^verbatim>\<open>_slave_sel\<close> is set, and at most one bit of \<^verbatim>\<open>_slave_sel_r\<close>; the statement does
  not depend on \<^verbatim>\<open>register\<close>, so it holds in both modes.
\<close>

theorem C1_mutual_exclusion:
  assumes "window_ok d" and "no_conflicts (addresses d)"
  shows "bits_set (slave_sel d (ms t)) \<le> 1 \<and>
         bits_set (slave_sel_r d (Decoder_reg d ms t) (ms t)) \<le> 1"
  using assms bits_set_slave_sel [of d "ms t"] bits_set_Decoder_reg [of d ms t]
  by (simp add: slave_sel_r_def)

theorem C1_mutual_exclusion_witness:
  "window_ok (demo_decoder True) \<and> no_conflicts (addresses (demo_decoder True)) \<and>
   slave_sel (demo_decoder True) (demo_stream 1) = [True, False] \<and>
   slave_sel_r (demo_decoder True) (Decoder_reg (demo_decoder True) demo_stream 1) (demo_stream 1)
     = [False, True] \<and>
   bits_set (slave_sel (demo_decoder True) (demo_stream 1)) \<le> 1 \<and>
   bits_set (slave_sel_r (demo_decoder True) (Decoder_reg (demo_decoder True) demo_stream 1)
     (demo_stream 1)) \<le> 1"
  using C1_mutual_exclusion [of "demo_decoder True" demo_stream 1]
    demo_window_ok [of True] demo_no_conflicts [of True]
  by (simp add: demo_stream_def demo_slave_sel_A demo_slave_sel_B slave_sel_r_def
      Decoder_sync_def demo_decoder_def [THEN arg_cong [where f = register]])

section \<open>Evaluating the concrete configurations\<close>

lemma demo_ns: "ns (demo_decoder reg) = 2"
  by (simp add: ns_def demo_decoder_def)

lemma upt_2: "[0..<2] = [0, 1]" "[0..<3] = [0, 1, 2]"
  by (simp_all add: upt_rec)

lemma bits_for_demo: "bits_for (AInt 0) = 1" "bits_for (AInt 1) = 1" "bits_for (AConst c) = bv_width c"
  by (simp_all add: bits_for_def bitlen_def floorlog_def)

lemma steady_sel: "slave_sel (demo_decoder reg) (steady_stream t) = [True, False]"
  by (simp add: steady_stream_def demo_slave_sel_A)

lemma steady_one_hot:
  "\<forall>j<ns (demo_decoder reg). slave_sel (demo_decoder reg) (steady_stream t) ! j = (j = 0)"
  by (auto simp: steady_sel demo_ns less_Suc_eq numeral_2_eq_2)

lemma overlap_init:
  "Decoder_init bits_for overlap_table 0 False =
     Inr \<lparr>addresses = [\<lparr>c_n = 0, bv_width = 1\<rparr>, \<lparr>c_n = 0, bv_width = 1\<rparr>], offset = 0, register = False\<rparr>"
  by (simp add: Decoder_init_def overlap_table_def bits_for_demo mkconst_def)

lemma steady_cyc: "\<forall>t. \<forall>j<3. cyc_o (steady_masters t j)"
  by (simp add: steady_masters_def demo_masters_def demo_master_def)

lemma steady_request: "Arbiter_request 3 (steady_masters t) = [True, True, True]"
  by (simp add: Arbiter_request_def upt_2 steady_masters_def demo_masters_def demo_master_def)

lemma rr_three:
  "rr_evaluate [True, True, True] 0 = Some 1"
  "rr_evaluate [True, True, True] (Suc 0) = Some 2"
  "rr_evaluate [True, True, True] 2 = Some 0"
  by (simp_all add: rr_evaluate_def rr_order_def upt_rec)


section \<open>The combinational outputs\<close>

lemma foldl_or_ex: "foldl (\<lambda>v i. v \<or> P i) b [0..<k] = (b \<or> (\<exists>i<k. P i))"
  by (induction k) (auto simp: less_Suc_eq)

lemma ackv_ex: "ackv d s = (\<exists>i<ns d. ack_o (s i))"
  by (simp add: ackv_def foldl_or_ex)

lemma errv_ex: "errv d s = (\<exists>i<ns d. err_o (s i))"
  by (simp add: errv_def foldl_or_ex)


lemma masters_i_nth: "i < n \<Longrightarrow> masters_i (Arbiter_get_fragment n g mo tgt) ! i = Arbiter_master_i g tgt i"
  by (simp add: Arbiter_get_fragment_def)

lemma foldl_mux:
  assumes "\<forall>j<k. v ! j = (j = t)"
  shows "foldl (\<lambda>acc i. acc OR (Replicate (v ! i) AND f i)) 0 [0..<k] = (if t < k then f t else 0)"
  using assms
proof (induction k)
  case 0
  then show ?case by simp
next
  case (Suc k)
  define F where "F = (\<lambda>acc i. acc OR (Replicate (v ! i) AND f i))"
  from Suc have IH: "foldl F 0 [0..<k] = (if t < k then f t else 0)"
    by (simp add: F_def)
  from Suc.prems have vk: "v ! k = (k = t)" by simp
  have "foldl F 0 [0..<Suc k] = foldl F 0 [0..<k] OR (Replicate (k = t) AND f k)"
    by (simp add: F_def vk)
  also have "\<dots> = (if t < Suc k then f t else 0)"
    by (auto simp: IH Replicate_def less_Suc_eq)
  finally show ?case by (simp only: F_def)
qed

lemma datav_one_hot:
  assumes "t < ns d" "\<forall>j<ns d. slave_sel_r d r m ! j = (j = t)"
  shows "datav d r m s = sl_dat_o (s t)"
  using foldl_mux [OF assms(2), of "\<lambda>i. sl_dat_o (s i)"] assms(1) by (simp add: datav_def)

section \<open>Response isolation in the arbiter\<close>

text \<open>
  Claim C2. In every cycle, whatever the value \<open>g\<close> of the grant and whatever the
  target port receives, a master \<open>i\<close> that is not the granted one gets \<^verbatim>\<open>ack_i\<close> and
  \<^verbatim>\<open>err_i\<close> equal to 0, and the granted master gets the acknowledge and the error of
  the target port unchanged.
\<close>

theorem C2_response_isolation:
  assumes "i < n"
  shows "(i \<noteq> g \<longrightarrow>
            \<not> ack_i (masters_i (Arbiter_get_fragment n g mo tgt) ! i) \<and>
            \<not> err_i (masters_i (Arbiter_get_fragment n g mo tgt) ! i)) \<and>
         (i = g \<longrightarrow>
            ack_i (masters_i (Arbiter_get_fragment n g mo tgt) ! i) = ack_i tgt \<and>
            err_i (masters_i (Arbiter_get_fragment n g mo tgt) ! i) = err_i tgt)"
  using assms by (auto simp: masters_i_nth Arbiter_master_i_def)

theorem C2_response_isolation_witness:
  "(2::nat) < 3 \<and> ack_i demo_target \<and> err_i demo_target \<and>
   \<not> ack_i (masters_i (Arbiter_get_fragment 3 0 demo_masters demo_target) ! 2) \<and>
   \<not> err_i (masters_i (Arbiter_get_fragment 3 0 demo_masters demo_target) ! 2) \<and>
   ack_i (masters_i (Arbiter_get_fragment 3 0 demo_masters demo_target) ! 0) \<and>
   err_i (masters_i (Arbiter_get_fragment 3 0 demo_masters demo_target) ! 0)"
  using C2_response_isolation [of 2 3 0 demo_masters demo_target]
    C2_response_isolation [of 0 3 0 demo_masters demo_target]
  by (simp add: demo_target_def)

section \<open>Decode correctness\<close>



section \<open>The registered select\<close>

text \<open>
  Claim C4. With \<^verbatim>\<open>register\<close>, \<^verbatim>\<open>_slave_sel_r\<close> in cycle \<open>t + 1\<close> is what
  \<^verbatim>\<open>_slave_sel\<close> was in cycle \<open>t\<close>; without, the two are equal in the same cycle. In
  both modes \<^verbatim>\<open>cyc_i\<close> of every slave is gated by \<^verbatim>\<open>_slave_sel\<close> of the current
  cycle; the content of the flip-flops has no influence on the signals towards the
  slaves nor on the acknowledge and the error of the master, and enters the read
  data only as \<^verbatim>\<open>_slave_sel_r\<close> in the data multiplexer.
\<close>

theorem C4_registered_select:
  "(register d \<longrightarrow> slave_sel_r d (Decoder_reg d ms (Suc t)) (ms (Suc t)) = slave_sel d (ms t)) \<and>
   (\<not> register d \<longrightarrow> slave_sel_r d (Decoder_reg d ms t) (ms t) = slave_sel d (ms t)) \<and>
   (\<forall>i<ns d. cyc_i (slaves_i (Decoder_get_fragment d r m s) ! i) = (cyc_o m \<and> slave_sel d m ! i)) \<and>
   slaves_i (Decoder_get_fragment d r m s) = slaves_i (Decoder_get_fragment d r' m s) \<and>
   ack_i (master_i (Decoder_get_fragment d r m s)) = ack_i (master_i (Decoder_get_fragment d r' m s)) \<and>
   err_i (master_i (Decoder_get_fragment d r m s)) = err_i (master_i (Decoder_get_fragment d r' m s)) \<and>
   dat_i (master_i (Decoder_get_fragment d r m s)) =
     foldl (\<lambda>v i. v OR (Replicate (slave_sel_r d r m ! i) AND sl_dat_o (s i))) 0 [0..<ns d]"
  by (simp add: slave_sel_r_def Decoder_sync_def Decoder_get_fragment_def slave_i_def datav_def)

theorem C4_registered_select_witness:
  "register (demo_decoder True) \<and> \<not> register (demo_decoder False) \<and>
   slave_sel (demo_decoder True) (demo_stream 0) = [False, True] \<and>
   slave_sel (demo_decoder True) (demo_stream (Suc 0)) = [True, False] \<and>
   slave_sel_r (demo_decoder True) (Decoder_reg (demo_decoder True) demo_stream (Suc 0))
     (demo_stream (Suc 0)) = [False, True] \<and>
   slave_sel_r (demo_decoder False) (Decoder_reg (demo_decoder False) demo_stream (Suc 0))
     (demo_stream (Suc 0)) = [True, False] \<and>
   cyc_i (slaves_i (Decoder_get_fragment (demo_decoder True)
     (Decoder_reg (demo_decoder True) demo_stream (Suc 0)) (demo_stream (Suc 0)) acking_slaves) ! 0) \<and>
   \<not> cyc_i (slaves_i (Decoder_get_fragment (demo_decoder True)
     (Decoder_reg (demo_decoder True) demo_stream (Suc 0)) (demo_stream (Suc 0)) acking_slaves) ! 1)"
proof -
  have s0: "slave_sel (demo_decoder reg) (demo_stream 0) = [False, True]" for reg
    by (simp add: demo_stream_def demo_slave_sel_B)
  have s1: "slave_sel (demo_decoder reg) (demo_stream (Suc 0)) = [True, False]" for reg
    by (simp add: demo_stream_def demo_slave_sel_A)
  have r: "register (demo_decoder True)" "\<not> register (demo_decoder False)"
    by (simp_all add: demo_decoder_def)
  have c: "cyc_o (demo_stream (Suc 0))" by (simp add: demo_stream_def demo_master_def)
  note T = C4_registered_select [of "demo_decoder True" demo_stream 0
        "Decoder_reg (demo_decoder True) demo_stream (Suc 0)" "demo_stream (Suc 0)" acking_slaves "[]"]
  note F = C4_registered_select [of "demo_decoder False" demo_stream "Suc 0" "[]"
        "demo_stream (Suc 0)" acking_slaves "[]"]
  from T r(1) have a: "slave_sel_r (demo_decoder True)
      (Decoder_reg (demo_decoder True) demo_stream (Suc 0)) (demo_stream (Suc 0)) = [False, True]"
    by (simp only: s0 simp_thms)
  from F r(2) have b: "slave_sel_r (demo_decoder False)
      (Decoder_reg (demo_decoder False) demo_stream (Suc 0)) (demo_stream (Suc 0)) = [True, False]"
    by (simp only: s1 simp_thms)
  from T have "\<forall>i<ns (demo_decoder True). cyc_i (slaves_i (Decoder_get_fragment (demo_decoder True)
     (Decoder_reg (demo_decoder True) demo_stream (Suc 0)) (demo_stream (Suc 0)) acking_slaves) ! i)
      = (cyc_o (demo_stream (Suc 0)) \<and> slave_sel (demo_decoder True) (demo_stream (Suc 0)) ! i)"
    by blast
  then have g: "\<forall>i<2. cyc_i (slaves_i (Decoder_get_fragment (demo_decoder True)
     (Decoder_reg (demo_decoder True) demo_stream (Suc 0)) (demo_stream (Suc 0)) acking_slaves) ! i)
      = ([True, False] ! i)"
    by (simp only: s1 c demo_ns simp_thms)
  from g have g0: "cyc_i (slaves_i (Decoder_get_fragment (demo_decoder True)
     (Decoder_reg (demo_decoder True) demo_stream (Suc 0)) (demo_stream (Suc 0)) acking_slaves) ! 0)"
    by simp
  from g have g1: "\<not> cyc_i (slaves_i (Decoder_get_fragment (demo_decoder True)
     (Decoder_reg (demo_decoder True) demo_stream (Suc 0)) (demo_stream (Suc 0)) acking_slaves) ! 1)"
    by simp
  show ?thesis
    using r s0 [of True] s1 [of True] a b g0 g1 by (intro conjI)
qed

section \<open>Read data\<close>

text \<open>
  Claim C5, as amended. Let slave \<open>t\<close> be the only selected one in cycle \<open>c\<close>. Without
  \<^verbatim>\<open>register\<close>, every master (the granted one among them) observes in cycle \<open>c\<close>
  the read data slave \<open>t\<close> drives in cycle \<open>c\<close>. With \<^verbatim>\<open>register\<close>, every master
  observes in cycle \<open>c + 1\<close> the read data slave \<open>t\<close> drives in cycle \<open>c + 1\<close>: the
  select is delayed by a cycle, the data is not, so the value of cycle \<open>c\<close> is seen a
  cycle later only when the slave still drives it.
\<close>

theorem C5_read_data:
  assumes "t < ns d" and "\<forall>j<ns d. slave_sel d (ms c) ! j = (j = t)" and "i < n"
  shows "(\<not> register d \<longrightarrow>
            dat_i (masters_i (Arbiter_get_fragment n g mo
              (master_i (Decoder_get_fragment d (Decoder_reg d ms c) (ms c) (ss c)))) ! i)
            = sl_dat_o (ss c t)) \<and>
         (register d \<longrightarrow>
            dat_i (masters_i (Arbiter_get_fragment n g mo
              (master_i (Decoder_get_fragment d (Decoder_reg d ms (Suc c)) (ms (Suc c)) (ss (Suc c))))) ! i)
            = sl_dat_o (ss (Suc c) t))"
proof (intro conjI impI)
  assume "\<not> register d"
  then have "\<forall>j<ns d. slave_sel_r d (Decoder_reg d ms c) (ms c) ! j = (j = t)"
    using assms(2) by (simp add: slave_sel_r_def)
  then have "datav d (Decoder_reg d ms c) (ms c) (ss c) = sl_dat_o (ss c t)"
    using assms(1) by (rule datav_one_hot [rotated])
  then show "dat_i (masters_i (Arbiter_get_fragment n g mo
              (master_i (Decoder_get_fragment d (Decoder_reg d ms c) (ms c) (ss c)))) ! i)
            = sl_dat_o (ss c t)"
    using assms(3) by (simp add: masters_i_nth Arbiter_master_i_def Decoder_get_fragment_def)
next
  assume "register d"
  then have "\<forall>j<ns d. slave_sel_r d (Decoder_reg d ms (Suc c)) (ms (Suc c)) ! j = (j = t)"
    using assms(2) by (simp add: slave_sel_r_def Decoder_sync_def)
  then have "datav d (Decoder_reg d ms (Suc c)) (ms (Suc c)) (ss (Suc c)) = sl_dat_o (ss (Suc c) t)"
    using assms(1) by (rule datav_one_hot [rotated])
  then show "dat_i (masters_i (Arbiter_get_fragment n g mo
              (master_i (Decoder_get_fragment d (Decoder_reg d ms (Suc c)) (ms (Suc c)) (ss (Suc c))))) ! i)
            = sl_dat_o (ss (Suc c) t)"
    using assms(3) by (simp add: masters_i_nth Arbiter_master_i_def Decoder_get_fragment_def)
qed

theorem C5_read_data_witness:
  "\<not> register (demo_decoder False) \<and> register (demo_decoder True) \<and>
   0 < ns (demo_decoder False) \<and> (0::nat) < 3 \<and>
   slave_sel (demo_decoder False) (steady_stream 0) = [True, False] \<and>
   sl_dat_o (changing_slaves 0 0) = 5 \<and> sl_dat_o (changing_slaves (Suc 0) 0) = 7 \<and>
   dat_i (masters_i (Arbiter_get_fragment 3 0 demo_masters
      (master_i (Decoder_get_fragment (demo_decoder False)
         (Decoder_reg (demo_decoder False) steady_stream 0) (steady_stream 0) (changing_slaves 0)))) ! 0)
     = 5 \<and>
   dat_i (masters_i (Arbiter_get_fragment 3 0 demo_masters
      (master_i (Decoder_get_fragment (demo_decoder True)
         (Decoder_reg (demo_decoder True) steady_stream (Suc 0)) (steady_stream (Suc 0))
         (changing_slaves (Suc 0))))) ! 0)
     = 7"
proof -
  have r: "\<not> register (demo_decoder False)" "register (demo_decoder True)"
    by (simp_all add: demo_decoder_def)
  have n: "0 < ns (demo_decoder reg)" for reg by (simp add: demo_ns)
  have d: "sl_dat_o (changing_slaves 0 0) = 5" "sl_dat_o (changing_slaves (Suc 0) 0) = 7"
    by (simp_all add: changing_slaves_def demo_slave_def)
  have l: "(0::nat) < 3" by simp
  from C5_read_data [where d = "demo_decoder False" and ms = steady_stream and c = 0 and t = 0
      and i = 0 and n = 3 and g = 0 and mo = demo_masters and ss = changing_slaves,
      OF n steady_one_hot l] r(1)
  have a: "dat_i (masters_i (Arbiter_get_fragment 3 0 demo_masters
      (master_i (Decoder_get_fragment (demo_decoder False)
         (Decoder_reg (demo_decoder False) steady_stream 0) (steady_stream 0) (changing_slaves 0)))) ! 0)
     = 5"
    by (simp only: d simp_thms)
  from C5_read_data [where d = "demo_decoder True" and ms = steady_stream and c = 0 and t = 0
      and i = 0 and n = 3 and g = 0 and mo = demo_masters and ss = changing_slaves,
      OF n steady_one_hot l] r(2)
  have b: "dat_i (masters_i (Arbiter_get_fragment 3 0 demo_masters
      (master_i (Decoder_get_fragment (demo_decoder True)
         (Decoder_reg (demo_decoder True) steady_stream (Suc 0)) (steady_stream (Suc 0))
         (changing_slaves (Suc 0))))) ! 0)
     = 7"
    by (simp only: d simp_thms)
  show ?thesis
    using r n [of False] l steady_sel [of False 0] d a b by (intro conjI)
qed

text \<open>
  The claim as stated fails with \<^verbatim>\<open>register\<close>: target A is selected in cycle 0 and
  drives 5, it drives 7 in cycle 1, and the granted master reads 7 in cycle 1.
\<close>

theorem C5_read_data_counterexample:
  "register (demo_decoder True) \<and>
   slave_sel (demo_decoder True) (steady_stream 0) = [True, False] \<and>
   sl_dat_o (changing_slaves 0 0) = 5 \<and>
   dat_i (masters_i (Arbiter_get_fragment 3 0 demo_masters
      (master_i (Decoder_get_fragment (demo_decoder True)
         (Decoder_reg (demo_decoder True) steady_stream (Suc 0)) (steady_stream (Suc 0))
         (changing_slaves (Suc 0))))) ! 0)
     = 7 \<and>
   dat_i (masters_i (Arbiter_get_fragment 3 0 demo_masters
      (master_i (Decoder_get_fragment (demo_decoder True)
         (Decoder_reg (demo_decoder True) steady_stream (Suc 0)) (steady_stream (Suc 0))
         (changing_slaves (Suc 0))))) ! 0)
     \<noteq> sl_dat_o (changing_slaves 0 0)"
proof -
  have r: "register (demo_decoder True)"
    by (simp add: demo_decoder_def)
  have reg: "Decoder_reg (demo_decoder True) steady_stream (Suc 0) = [True, False]"
    by (simp add: Decoder_sync_def r steady_sel)
  have dv: "datav (demo_decoder True) [True, False] (steady_stream (Suc 0)) (changing_slaves (Suc 0)) = 7"
    by (simp add: datav_def demo_ns upt_2 slave_sel_r_def r Replicate_def changing_slaves_def demo_slave_def)
  have o: "dat_i (masters_i (Arbiter_get_fragment 3 0 demo_masters
      (master_i (Decoder_get_fragment (demo_decoder True)
         (Decoder_reg (demo_decoder True) steady_stream (Suc 0)) (steady_stream (Suc 0))
         (changing_slaves (Suc 0))))) ! 0) = 7"
    by (simp only: reg) (simp add: Arbiter_get_fragment_def upt_2 Arbiter_master_i_def Decoder_get_fragment_def dv)
  have d: "sl_dat_o (changing_slaves 0 0) = 5"
    by (simp add: changing_slaves_def demo_slave_def)
  show ?thesis
    unfolding o d using r steady_sel [of True 0] by simp
qed

section \<open>Acknowledge and error of the master\<close>

text \<open>
  Claim C6. In every cycle the acknowledge of the master is the disjunction of the
  slaves' acknowledges and its error the disjunction of their errors. When no slave
  asserts either while its \<^verbatim>\<open>cyc_i\<close> is low, and slave \<open>k\<close> is the only one with
  \<^verbatim>\<open>cyc_i\<close> high, the two are the acknowledge and the error of slave \<open>k\<close>.
\<close>

theorem C6_response_or:
  shows "ack_i (master_i (Decoder_get_fragment d r m s)) = (\<exists>i<ns d. ack_o (s i)) \<and>
         err_i (master_i (Decoder_get_fragment d r m s)) = (\<exists>i<ns d. err_o (s i)) \<and>
         ((\<forall>i<ns d. \<not> cyc_i (slaves_i (Decoder_get_fragment d r m s) ! i) \<longrightarrow>
              \<not> ack_o (s i) \<and> \<not> err_o (s i)) \<longrightarrow>
          (\<forall>k<ns d. cyc_i (slaves_i (Decoder_get_fragment d r m s) ! k) \<and>
              (\<forall>j<ns d. j \<noteq> k \<longrightarrow> \<not> cyc_i (slaves_i (Decoder_get_fragment d r m s) ! j)) \<longrightarrow>
              ack_i (master_i (Decoder_get_fragment d r m s)) = ack_o (s k) \<and>
              err_i (master_i (Decoder_get_fragment d r m s)) = err_o (s k)))"
proof -
  have a: "ack_i (master_i (Decoder_get_fragment d r m s)) = (\<exists>i<ns d. ack_o (s i))"
    by (simp add: Decoder_get_fragment_def ackv_ex)
  have e: "err_i (master_i (Decoder_get_fragment d r m s)) = (\<exists>i<ns d. err_o (s i))"
    by (simp add: Decoder_get_fragment_def errv_ex)
  show ?thesis
    unfolding a e by (intro conjI refl impI allI) metis+
qed

theorem C6_response_or_witness:
  "cyc_i (slaves_i (Decoder_get_fragment (demo_decoder False) [] (demo_master 0x10) acking_slaves) ! 0) \<and>
   \<not> cyc_i (slaves_i (Decoder_get_fragment (demo_decoder False) [] (demo_master 0x10) acking_slaves) ! 1) \<and>
   \<not> ack_o (acking_slaves 1) \<and> \<not> err_o (acking_slaves 1) \<and>
   ack_o (acking_slaves 0) \<and> \<not> err_o (acking_slaves 0) \<and>
   ack_i (master_i (Decoder_get_fragment (demo_decoder False) [] (demo_master 0x10) acking_slaves)) \<and>
   \<not> err_i (master_i (Decoder_get_fragment (demo_decoder False) [] (demo_master 0x10) acking_slaves))"
proof -
  let ?F = "Decoder_get_fragment (demo_decoder False) [] (demo_master 0x10) acking_slaves"
  have c: "cyc_o (demo_master 0x10)" by (simp add: demo_master_def)
  have c0: "cyc_i (slaves_i ?F ! 0)"
    by (simp add: Decoder_get_fragment_def demo_ns upt_2 slave_i_def demo_slave_sel_A c
        del: upt_Suc)
  have c1: "\<not> cyc_i (slaves_i ?F ! 1)"
    by (simp add: Decoder_get_fragment_def demo_ns upt_2 slave_i_def demo_slave_sel_A del: upt_Suc)
  have s: "\<not> ack_o (acking_slaves 1)" "\<not> err_o (acking_slaves 1)"
       "ack_o (acking_slaves 0)" "\<not> err_o (acking_slaves 0)"
    by (simp_all add: acking_slaves_def demo_slave_def)
  have p: "\<forall>i<ns (demo_decoder False). \<not> cyc_i (slaves_i ?F ! i) \<longrightarrow>
              \<not> ack_o (acking_slaves i) \<and> \<not> err_o (acking_slaves i)"
    using c0 s by (auto simp: demo_ns less_Suc_eq numeral_2_eq_2)
  have u: "\<forall>j<ns (demo_decoder False). j \<noteq> 0 \<longrightarrow> \<not> cyc_i (slaves_i ?F ! j)"
    using c1 by (auto simp: demo_ns less_Suc_eq numeral_2_eq_2)
  have k: "0 < ns (demo_decoder False)" by (simp add: demo_ns)
  from C6_response_or [of "demo_decoder False" "[]" "demo_master 0x10" acking_slaves] p u c0 k
  have "ack_i (master_i ?F) = ack_o (acking_slaves 0) \<and> err_i (master_i ?F) = err_o (acking_slaves 0)"
    by blast
  with s have "ack_i (master_i ?F)" "\<not> err_i (master_i ?F)" by simp_all
  with c0 c1 s show ?thesis by (intro conjI)
qed

section \<open>The forward multiplexer\<close>

text \<open>
  Claim C7. In every cycle with the grant \<open>g\<close> among the \<open>n\<close> masters, the address,
  write data, byte select, strobe, write enable, cycle type and burst type of the
  target port are those of master \<open>g\<close>, and what the other masters drive has no
  effect on the target port.
\<close>

theorem C7_forward_mux:
  assumes "g < n"
  shows "(\<exists>shr. target_o (Arbiter_get_fragment n g mo tgt) = Some shr \<and>
            adr_o shr = adr_o (mo g) \<and> dat_o shr = dat_o (mo g) \<and> sel_o shr = sel_o (mo g) \<and>
            stb_o shr = stb_o (mo g) \<and> we_o shr = we_o (mo g) \<and> cti_o shr = cti_o (mo g) \<and>
            bte_o shr = bte_o (mo g)) \<and>
         (mo' g = mo g \<longrightarrow>
            target_o (Arbiter_get_fragment n g mo' tgt) = target_o (Arbiter_get_fragment n g mo tgt))"
  using assms by (simp add: Arbiter_get_fragment_def multimux_def)

theorem C7_forward_mux_witness:
  "(2::nat) < 3 \<and>
   target_o (Arbiter_get_fragment 3 2 demo_masters demo_target) = Some (demo_master 0x80000000) \<and>
   target_o (Arbiter_get_fragment 3 2 (steady_masters 0) demo_target)
     = target_o (Arbiter_get_fragment 3 2 demo_masters demo_target)"
proof -
  have l: "(2::nat) < 3" by simp
  have e: "steady_masters 0 2 = demo_masters 2" by (simp add: steady_masters_def)
  from C7_forward_mux [OF l, of demo_masters demo_target "steady_masters 0"] e
  have a: "target_o (Arbiter_get_fragment 3 2 (steady_masters 0) demo_target)
     = target_o (Arbiter_get_fragment 3 2 demo_masters demo_target)"
    by blast
  from C7_forward_mux [OF l, of demo_masters demo_target "steady_masters 0"]
  obtain shr where "target_o (Arbiter_get_fragment 3 2 demo_masters demo_target) = Some shr"
    by blast
  then have b: "target_o (Arbiter_get_fragment 3 2 demo_masters demo_target) = Some (demo_master 0x80000000)"
    by (simp add: Arbiter_get_fragment_def multimux_def demo_masters_def)
  show ?thesis using l a b by (intro conjI)
qed

section \<open>Construction of a decoder\<close>

lemma Decoder_init_Inr:
  "slaves \<noteq> [] \<Longrightarrow> Decoder_init bf slaves off reg =
     Inr \<lparr>addresses = map (mkconst (Max (bf ` set slaves))) slaves, offset = off, register = reg\<rparr>"
  by (simp add: Decoder_init_def)

text \<open>
  Claim C8, as amended. The constructor does not compare the patterns: a table whose
  patterns conflict is constructed without an error, the conflicting patterns are
  kept as they are, and for an address that two entries of the table both match both
  of their select bits are set. That addresses do not conflict is left to the caller.
\<close>

theorem C8_no_validation:
  assumes "\<not> no_conflicts (map (mkconst (Max (bf ` set slaves))) slaves)"
  shows "\<exists>d. Decoder_init bf slaves off reg = Inr d \<and>
              addresses d = map (mkconst (Max (bf ` set slaves))) slaves \<and>
              \<not> no_conflicts (addresses d) \<and>
              (\<forall>m i j. i < ns d \<and> j < ns d \<and>
                  matches d (adr_o m) (addresses d ! i) \<and> matches d (adr_o m) (addresses d ! j) \<longrightarrow>
                  slave_sel d m ! i \<and> slave_sel d m ! j)"
proof -
  let ?d = "\<lparr>addresses = map (mkconst (Max (bf ` set slaves))) slaves, offset = off, register = reg\<rparr>"
  from assms have "slaves \<noteq> []" by auto
  then have i: "Decoder_init bf slaves off reg = Inr ?d"
    by (rule Decoder_init_Inr)
  have c: "\<not> no_conflicts (addresses ?d)"
    using assms by simp
  have s: "slave_sel ?d m ! k = matches ?d (adr_o m) (addresses ?d ! k)" if "k < ns ?d" for m k
    using that by (simp add: slave_sel_def ns_def)
  have "\<forall>m i j. i < ns ?d \<and> j < ns ?d \<and>
          matches ?d (adr_o m) (addresses ?d ! i) \<and> matches ?d (adr_o m) (addresses ?d ! j) \<longrightarrow>
          slave_sel ?d m ! i \<and> slave_sel ?d m ! j"
    using s by blast
  with i c show ?thesis by (intro exI [of _ ?d] conjI) simp_all
qed

theorem C8_no_validation_witness:
  "\<not> no_conflicts (map (mkconst (Max (bits_for ` set overlap_table))) overlap_table) \<and>
   Decoder_init bits_for overlap_table 0 False =
     Inr \<lparr>addresses = [\<lparr>c_n = 0, bv_width = 1\<rparr>, \<lparr>c_n = 0, bv_width = 1\<rparr>],
          offset = 0, register = False\<rparr> \<and>
   matches \<lparr>addresses = [\<lparr>c_n = 0, bv_width = 1\<rparr>, \<lparr>c_n = 0, bv_width = 1\<rparr>],
          offset = 0, register = False\<rparr> (adr_o (demo_master 0x10)) \<lparr>c_n = 0, bv_width = 1\<rparr> \<and>
   slave_sel \<lparr>addresses = [\<lparr>c_n = 0, bv_width = 1\<rparr>, \<lparr>c_n = 0, bv_width = 1\<rparr>],
          offset = 0, register = False\<rparr> (demo_master 0x10) ! 0 \<and>
   slave_sel \<lparr>addresses = [\<lparr>c_n = 0, bv_width = 1\<rparr>, \<lparr>c_n = 0, bv_width = 1\<rparr>],
          offset = 0, register = False\<rparr> (demo_master 0x10) ! 1"
proof -
  let ?d = "\<lparr>addresses = [\<lparr>c_n = 0, bv_width = 1\<rparr>, \<lparr>c_n = 0, bv_width = 1\<rparr>],
          offset = 0, register = False\<rparr>"
  have c: "\<not> no_conflicts (map (mkconst (Max (bits_for ` set overlap_table))) overlap_table)"
    by (simp add: overlap_table_def bits_for_demo mkconst_def conflict_def)
  have m: "matches ?d (adr_o (demo_master 0x10)) \<lparr>c_n = 0, bv_width = 1\<rparr>"
    by (simp add: matches_def hi_def demo_master_def adr_slice_demo)
  from C8_no_validation [OF c, of 0 False]
  obtain d where d: "Decoder_init bits_for overlap_table 0 False = Inr d"
    and sel: "\<forall>m i j. i < ns d \<and> j < ns d \<and>
        matches d (adr_o m) (addresses d ! i) \<and> matches d (adr_o m) (addresses d ! j) \<longrightarrow>
        slave_sel d m ! i \<and> slave_sel d m ! j"
    by blast
  from d overlap_init have e: "d = ?d" by simp
  have "(0::nat) < ns ?d \<and> (1::nat) < ns ?d \<and>
      matches ?d (adr_o (demo_master 0x10)) (addresses ?d ! 0) \<and>
      matches ?d (adr_o (demo_master 0x10)) (addresses ?d ! 1)"
    using m by (simp add: ns_def)
  with sel [unfolded e] have "slave_sel ?d (demo_master 0x10) ! 0 \<and> slave_sel ?d (demo_master 0x10) ! 1"
    by blast
  with c overlap_init m show ?thesis by (intro conjI) simp_all
qed

text \<open>
  The claim as stated fails: the table with the pattern 0 twice is constructed, the
  two entries conflict, and an address with bit 31 clear selects both slaves.
\<close>

theorem C8_no_validation_counterexample:
  "Decoder_init bits_for overlap_table 0 False =
     Inr \<lparr>addresses = [\<lparr>c_n = 0, bv_width = 1\<rparr>, \<lparr>c_n = 0, bv_width = 1\<rparr>], offset = 0, register = False\<rparr> \<and>
   conflict \<lparr>c_n = 0, bv_width = 1\<rparr> \<lparr>c_n = 0, bv_width = 1\<rparr> \<and>
   slave_sel \<lparr>addresses = [\<lparr>c_n = 0, bv_width = 1\<rparr>, \<lparr>c_n = 0, bv_width = 1\<rparr>], offset = 0, register = False\<rparr>
     (demo_master 0x10) = [True, True]"
  by (simp add: overlap_init conflict_def slave_sel_def matches_def hi_def demo_master_def adr_slice_demo)



section \<open>Fairness of the round-robin selector\<close>

lemma rr_evaluate_all:
  assumes "0 < length req" "\<forall>i<length req. req ! i"
  shows "rr_evaluate req p = Some ((p + 1) mod length req)"
proof -
  have "1 < length req + 1" using assms(1) by simp
  then have xs: "[1..<length req + 1] = 1 # [Suc 1..<length req + 1]"
    by (rule upt_conv_Cons)
  have o: "rr_order (length req) p =
      (p + 1) mod length req # map (\<lambda>k. (p + k) mod length req) [Suc 1..<length req + 1]"
    unfolding rr_order_def xs by (simp only: list.map)
  have "req ! ((p + 1) mod length req)"
    using assms by simp
  then show ?thesis
    unfolding rr_evaluate_def o by simp
qed

lemma Arbiter_request_all:
  assumes "\<forall>i<n. cyc_o (mo i)"
  shows "length (Arbiter_request n mo) = n" "\<forall>i<length (Arbiter_request n mo). Arbiter_request n mo ! i"
  using assms by (simp_all add: Arbiter_request_def)

lemma rr_prev_all:
  assumes "0 < n" "\<forall>t. \<forall>i<n. cyc_o (mo t i)"
  shows "rr_prev (\<lambda>t. Arbiter_request n (mo t)) p0 (Suc t) = (p0 + Suc t) mod n"
proof (induction t)
  case 0
  have "rr_evaluate (Arbiter_request n (mo 0)) p0 = Some ((p0 + 1) mod n)"
    using rr_evaluate_all [of "Arbiter_request n (mo 0)" p0] Arbiter_request_all [of n "mo 0"] assms
    by simp
  then show ?case by (simp add: rr_pointer_def)
next
  case (Suc t)
  have "rr_evaluate (Arbiter_request n (mo (Suc t))) ((p0 + Suc t) mod n)
          = Some (((p0 + Suc t) mod n + 1) mod n)"
    using rr_evaluate_all [of "Arbiter_request n (mo (Suc t))" "(p0 + Suc t) mod n"]
      Arbiter_request_all [of n "mo (Suc t)"] assms
    by simp
  then have "rr_prev (\<lambda>t. Arbiter_request n (mo t)) p0 (Suc (Suc t)) = ((p0 + Suc t) mod n + 1) mod n"
    using Suc by (simp add: rr_pointer_def)
  also have "\<dots> = (p0 + Suc (Suc t)) mod n"
    by (simp add: mod_Suc_eq)
  finally show ?case .
qed

lemma rr_grant_all:
  assumes "0 < n" "\<forall>t. \<forall>i<n. cyc_o (mo t i)"
  shows "rr_grant (\<lambda>t. Arbiter_request n (mo t)) p0 t = Some ((p0 + t + 1) mod n)"
proof -
  have e: "rr_evaluate (Arbiter_request n (mo t)) p = Some ((p + 1) mod n)" for p
    using rr_evaluate_all [of "Arbiter_request n (mo t)" p] Arbiter_request_all [of n "mo t"] assms
    by simp
  show ?thesis
  proof (cases t)
    case 0
    then show ?thesis using e [of p0] by (simp add: rr_grant_def)
  next
    case (Suc u)
    then show ?thesis
      using rr_prev_all [OF assms, of p0 u] e [of "(p0 + Suc u) mod n"]
      by (simp add: rr_grant_def mod_Suc_eq)
  qed
qed

lemma mod_cover:
  assumes "i < (n::nat)"
  shows "\<exists>k<n. (a + k) mod n = i"
proof -
  define c where "c = a mod n"
  have n: "0 < n" using assms by simp
  have c: "c < n" using n by (simp add: c_def)
  define k where "k = (i + n - c) mod n"
  have "(a + k) mod n = (c + k) mod n"
    by (simp add: c_def mod_add_left_eq)
  also have "\<dots> = (c + (i + n - c)) mod n"
    by (simp add: k_def mod_add_right_eq)
  also have "c + (i + n - c) = i + n" using c by simp
  also have "(i + n) mod n = i" using assms by simp
  finally have "(a + k) mod n = i" .
  moreover have "k < n" using n by (simp add: k_def)
  ultimately show ?thesis by blast
qed

text \<open>
  Claim C9. When each of the \<open>n\<close> masters holds \<^verbatim>\<open>cyc_o\<close> asserted in every cycle and
  the request vector is the vector of these bits, then, from any rotation pointer and
  any cycle \<open>t\<close> on, every master \<open>i\<close> is granted in one of the \<open>n\<close> cycles \<open>t\<close>, \<dots>,
  \<open>t + n - 1\<close>.
\<close>

theorem C9_fairness:
  assumes "i < n" and "\<forall>t. \<forall>j<n. cyc_o (mo t j)"
  shows "\<exists>k<n. rr_grant (\<lambda>t. Arbiter_request n (mo t)) p0 (t + k) = Some i"
proof -
  have n: "0 < n" using assms(1) by simp
  obtain k where k: "k < n" "(p0 + t + 1 + k) mod n = i"
    using mod_cover [OF assms(1), of "p0 + t + 1"] by blast
  have "rr_grant (\<lambda>t. Arbiter_request n (mo t)) p0 (t + k) = Some ((p0 + (t + k) + 1) mod n)"
    by (rule rr_grant_all [OF n assms(2)])
  also have "p0 + (t + k) + 1 = p0 + t + 1 + k" by simp
  finally show ?thesis using k by auto
qed

theorem C9_fairness_witness:
  "(0::nat) < 3 \<and> cyc_o (steady_masters 0 0) \<and> cyc_o (steady_masters 0 1) \<and> cyc_o (steady_masters 0 2) \<and>
   rr_grant (\<lambda>t. Arbiter_request 3 (steady_masters t)) 0 0 = Some 1 \<and>
   rr_grant (\<lambda>t. Arbiter_request 3 (steady_masters t)) 0 (Suc 0) = Some 2 \<and>
   rr_grant (\<lambda>t. Arbiter_request 3 (steady_masters t)) 0 (Suc (Suc 0)) = Some 0 \<and>
   (\<exists>k<3. rr_grant (\<lambda>t. Arbiter_request 3 (steady_masters t)) 0 (0 + k) = Some 0)"
proof -
  have l: "(0::nat) < 3" by simp
  have e: "\<exists>k<3. rr_grant (\<lambda>t. Arbiter_request 3 (steady_masters t)) 0 (0 + k) = Some 0"
    by (rule C9_fairness [OF l steady_cyc])
  have c: "cyc_o (steady_masters 0 0)" "cyc_o (steady_masters 0 1)" "cyc_o (steady_masters 0 2)"
    by (simp_all add: steady_masters_def demo_masters_def demo_master_def)
  have g: "rr_grant (\<lambda>t. Arbiter_request 3 (steady_masters t)) 0 0 = Some 1"
    "rr_grant (\<lambda>t. Arbiter_request 3 (steady_masters t)) 0 (Suc 0) = Some 2"
    "rr_grant (\<lambda>t. Arbiter_request 3 (steady_masters t)) 0 (Suc (Suc 0)) = Some 0"
    by (simp_all add: rr_grant_def steady_request rr_pointer_def rr_three)
  show ?thesis using l c g e by (intro conjI)
qed

end
